theory Spec2Isabelle
  imports Complex_Main
begin

section \<open>Data model of calculator.c\<close>

text \<open>The two enumerations, in the order of the source.\<close>

datatype TokType =
    T_END_BUF | T_ERROR
  | T_PLUS | T_MINUS | T_STAR | T_SLASH | T_PERC | T_CARAT
  | T_LT | T_GT | T_LTE | T_GTE | T_EQU | T_NEQU | T_EQUAL
  | T_OPAREN | T_CPAREN | T_NOT | T_AND | T_OR
  | T_NUM | T_SYM

datatype ValType = V_NUM | V_OP | V_SYM

text \<open>
  A pointer is an address or NULL (\<open>None\<close>). Values and repositories are separate
  heap objects of different types, so each kind has its own store; every non-NULL
  pointer refers to an object of its store.
\<close>

type_synonym ptr = "nat option"

record Value =
  vtype :: ValType
  ttype :: TokType
  val :: real
  name :: string
  "next" :: ptr

record ValueRepo =
  head :: ptr
  tail :: ptr
  crnt :: ptr

record heap =
  value_at :: "nat \<Rightarrow> Value"
  repo_at :: "nat \<Rightarrow> ValueRepo"

text \<open>
  What the C program does outside its defined behaviour is a result of its own:
  dereferencing NULL, and writing or reading past the 1024 bytes of the token text
  buffer.
\<close>

datatype error = NullDeref | BufferOverrun

section \<open>The value repository\<close>

text \<open>
  \<open>push\<close> stores through \<open>val\<close> before it tests \<open>val\<close> against NULL, so a NULL value
  pushed on a non-NULL repository is a NULL dereference.
\<close>

definition push :: "ptr \<Rightarrow> ptr \<Rightarrow> heap \<Rightarrow> error + heap" where
  "push p v h =
     (case p of
        None \<Rightarrow> Inr h
      | Some r \<Rightarrow>
          (case v of
             None \<Rightarrow> Inl NullDeref
           | Some a \<Rightarrow>
               (let h1 = h\<lparr>value_at := (value_at h)(a := (value_at h a)\<lparr>next := head (repo_at h r)\<rparr>)\<rparr>
                in Inr (h1\<lparr>repo_at := (repo_at h1)(r := (repo_at h1 r)\<lparr>head := Some a\<rparr>)\<rparr>))))"

definition pop :: "ptr \<Rightarrow> heap \<Rightarrow> ptr \<times> heap" where
  "pop p h =
     (case p of
        None \<Rightarrow> (None, h)
      | Some r \<Rightarrow>
          (let tmp = head (repo_at h r) in
           case head (repo_at h r) of
             None \<Rightarrow> (None, h)
           | Some a \<Rightarrow> (tmp, h\<lparr>repo_at := (repo_at h)(r := (repo_at h r)\<lparr>head := next (value_at h a)\<rparr>)\<rparr>)))"

definition peek :: "ptr \<Rightarrow> heap \<Rightarrow> ptr" where
  "peek p h = (case p of None \<Rightarrow> None | Some r \<Rightarrow> head (repo_at h r))"

definition get :: "ptr \<Rightarrow> heap \<Rightarrow> ptr \<times> heap" where
  "get p h =
     (case p of
        None \<Rightarrow> (None, h)
      | Some r \<Rightarrow>
          (case crnt (repo_at h r) of
             None \<Rightarrow> (None, h)
           | Some a \<Rightarrow> (Some a, h\<lparr>repo_at := (repo_at h)(r := (repo_at h r)\<lparr>crnt := next (value_at h a)\<rparr>)\<rparr>)))"

section \<open>Operator precedence\<close>

definition precedence :: "TokType \<Rightarrow> int" where
  "precedence op =
     (if op = T_PLUS then 5
      else if op = T_MINUS then 5
      else if op = T_STAR then 6
      else if op = T_SLASH then 6
      else if op = T_PERC then 6
      else if op = T_CARAT then 8
      else if op = T_LT then 4
      else if op = T_GT then 4
      else if op = T_LTE then 4
      else if op = T_GTE then 4
      else if op = T_EQU then 3
      else if op = T_NEQU then 3
      else if op = T_EQUAL then 0
      else if op = T_OPAREN then 0
      else if op = T_CPAREN then 0
      else if op = T_NOT then 7
      else if op = T_AND then 2
      else if op = T_OR then 1
      else if op = T_NUM then 10
      else if op = T_SYM then 10
      else - 1)"

text \<open>The tokens that the declaration of \<open>TokType\<close> lists under "operators".\<close>

definition is_operator :: "TokType \<Rightarrow> bool" where
  "is_operator op = (op \<notin> {T_END_BUF, T_ERROR, T_NUM, T_SYM})"

section \<open>The input buffer\<close>

text \<open>
  \<open>buf\<close> is the allocated block, \<open>cap\<close> its size, \<open>len\<close> the number of bytes loaded
  and \<open>idx\<close> the cursor. The three counters are C \<open>int\<close>s that the program only sets
  to zero, adds to and doubles, so they are natural numbers here.
\<close>

record InputBuffer =
  buf :: string
  cap :: nat
  len :: nat
  idx :: nat

text \<open>
  A character read from the buffer is widened to \<open>int\<close>. Plain \<open>char\<close> is taken as
  signed (as on x86-64), so the bytes from 0x80 read as negative numbers and the byte
  0xFF reads as \<open>-1\<close>, the number that also marks the end of the buffer. Storing an
  \<open>int\<close> into a \<open>char\<close> keeps its low eight bits (\<open>char_of\<close>).
\<close>

definition char_to_int :: "char \<Rightarrow> int" where
  "char_to_int c = (if (of_char c :: int) < 128 then of_char c else of_char c - 256)"

definition consume_char :: "InputBuffer \<Rightarrow> int \<times> InputBuffer" where
  "consume_char b =
     (if idx b < len b then (char_to_int (buf b ! idx b), b\<lparr>idx := idx b + 1\<rparr>)
      else (- 1, b))"

definition read_char :: "InputBuffer \<Rightarrow> int" where
  "read_char b = (if idx b < len b then char_to_int (buf b ! idx b) else - 1)"

text \<open>
  \<open>isalpha\<close> and \<open>isdigit\<close> of the C library in the "C" locale (the program never
  sets another one); on the negative numbers of a signed \<open>char\<close> both answer no.
\<close>

definition isalpha :: "int \<Rightarrow> bool" where
  "isalpha ch = (char_to_int CHR ''A'' \<le> ch \<and> ch \<le> char_to_int CHR ''Z''
                 \<or> char_to_int CHR ''a'' \<le> ch \<and> ch \<le> char_to_int CHR ''z'')"

definition isdigit :: "int \<Rightarrow> bool" where
  "isdigit ch = (char_to_int CHR ''0'' \<le> ch \<and> ch \<le> char_to_int CHR ''9'')"

section \<open>The tokenizer\<close>

record Token =
  type :: TokType
  str :: string

text \<open>What the program writes to the standard error stream, one entry per message.\<close>

datatype diag = UnhandledChar int | InvalidFloat string

text \<open>
  The text of a token is collected in a local array of 1024 zeroed bytes, written from
  index 0 on; the model keeps the bytes written so far. A write at index 1024 or beyond
  is outside the array.
\<close>

function read_symbol_loop :: "InputBuffer \<Rightarrow> string \<Rightarrow> error + (string \<times> InputBuffer)" where
  "read_symbol_loop b text =
     (let ch = read_char b in
      if isalpha ch \<or> ch = char_to_int CHR ''_'' then
        (if 1024 \<le> length text then Inl BufferOverrun
         else
           (let text' = text @ [char_of ch];
                b' = snd (consume_char b)
            in if 0 > read_char b' then Inr (text', b')
               else read_symbol_loop b' text'))
      else Inr (text, b))"
  by pat_completeness auto
termination
  by (relation "measure (\<lambda>(b, text). len b - idx b)")
     (auto simp: read_char_def consume_char_def isalpha_def char_to_int_def split: if_splits)

definition read_symbol :: "InputBuffer \<Rightarrow> error + (string \<times> InputBuffer)" where
  "read_symbol b = read_symbol_loop b []"

function read_number_loop :: "InputBuffer \<Rightarrow> string \<Rightarrow> error + (string \<times> InputBuffer)" where
  "read_number_loop b text =
     (let ch = read_char b in
      if isdigit ch \<or> ch = char_to_int CHR ''.'' then
        (if 1024 \<le> length text then Inl BufferOverrun
         else
           (let text' = text @ [char_of ch];
                b' = snd (consume_char b)
            in if 0 > read_char b' then Inr (text', b')
               else read_number_loop b' text'))
      else Inr (text, b))"
  by pat_completeness auto
termination
  by (relation "measure (\<lambda>(b, text). len b - idx b)")
     (auto simp: read_char_def consume_char_def isdigit_def char_to_int_def split: if_splits)

definition read_number :: "InputBuffer \<Rightarrow> error + (string \<times> InputBuffer)" where
  "read_number b = read_number_loop b []"

text \<open>
  The loop of \<open>consume_token\<close>: one round per character looked at. A round on a space
  or a tab consumes it and goes on; every other round finishes the token. The result is
  the token type, the bytes written to the text array, the messages written to the
  standard error stream and the buffer with its cursor moved.
\<close>

function consume_token_loop ::
  "InputBuffer \<Rightarrow> error + (TokType \<times> string \<times> diag list \<times> InputBuffer)" where
  "consume_token_loop b =
     (let ch = read_char b in
      if ch = char_to_int CHR '' '' \<or> ch = char_to_int CHR 0x09 then
        consume_token_loop (snd (consume_char b))
      else if ch = char_to_int CHR ''+'' then
        Inr (T_PLUS, [char_of ch], [], snd (consume_char b))
      else if ch = char_to_int CHR ''-'' then
        Inr (T_MINUS, [char_of ch], [], snd (consume_char b))
      else if ch = char_to_int CHR ''*'' then
        Inr (T_STAR, [char_of ch], [], snd (consume_char b))
      else if ch = char_to_int CHR ''/'' then
        Inr (T_SLASH, [char_of ch], [], snd (consume_char b))
      else if ch = char_to_int CHR ''%'' then
        Inr (T_PERC, [char_of ch], [], snd (consume_char b))
      else if ch = char_to_int CHR ''^'' then
        Inr (T_CARAT, [char_of ch], [], snd (consume_char b))
      else if ch = char_to_int CHR ''('' then
        Inr (T_OPAREN, [char_of ch], [], snd (consume_char b))
      else if ch = char_to_int CHR '')'' then
        Inr (T_CPAREN, [char_of ch], [], snd (consume_char b))
      else if ch = char_to_int CHR ''<'' then
        (let b1 = snd (consume_char b);
             ch1 = read_char b1
         in if ch1 = char_to_int CHR ''='' then
              Inr (T_LTE, [char_of ch, char_of ch1], [], snd (consume_char b1))
            else Inr (T_LT, [char_of ch], [], b1))
      else if ch = char_to_int CHR ''>'' then
        (let b1 = snd (consume_char b);
             ch1 = read_char b1
         in if ch1 = char_to_int CHR ''='' then
              Inr (T_GTE, [char_of ch, char_of ch1], [], snd (consume_char b1))
            else Inr (T_GT, [char_of ch], [], b1))
      else if ch = char_to_int CHR ''='' then
        (let b1 = snd (consume_char b);
             ch1 = read_char b1
         in if ch1 = char_to_int CHR ''='' then
              Inr (T_EQU, [char_of ch, char_of ch1], [], snd (consume_char b1))
            else Inr (T_EQUAL, [char_of ch], [], b1))
      else if ch = char_to_int CHR ''!'' then
        (let b1 = snd (consume_char b);
             ch1 = read_char b1
         in if ch1 = char_to_int CHR ''='' then
              Inr (T_NEQU, [char_of ch, char_of ch1], [], snd (consume_char b1))
            else Inr (T_NOT, [char_of ch], [], b1))
      else if ch = - 1 then Inr (T_END_BUF, [], [], b)
      else if isalpha ch \<or> ch = char_to_int CHR ''_'' then
        (case read_symbol b of
           Inl e \<Rightarrow> Inl e
         | Inr (text, b') \<Rightarrow> Inr (T_SYM, text, [], b'))
      else if isdigit ch then
        (case read_number b of
           Inl e \<Rightarrow> Inl e
         | Inr (text, b') \<Rightarrow> Inr (T_NUM, text, [], b'))
      else Inr (T_ERROR, [], [UnhandledChar ch], snd (consume_char b)))"
  by pat_completeness auto
termination
  by (relation "measure (\<lambda>b. len b - idx b)")
     (auto simp: read_char_def consume_char_def char_to_int_def split: if_splits)

text \<open>
  The global state the tokenizer works on: the current token (\<open>None\<close> is the initial
  \<open>{-1, NULL}\<close>), the input buffer and the standard error stream. \<open>consume_token\<close>
  ends with \<open>strdup\<close> of the text array, which needs a zero byte inside the array, that
  is fewer than 1024 bytes written.
\<close>

record globals =
  tok :: "Token option"
  buffer :: InputBuffer
  stderr :: "diag list"

definition consume_token :: "globals \<Rightarrow> error + globals" where
  "consume_token s =
     (case consume_token_loop (buffer s) of
        Inl e \<Rightarrow> Inl e
      | Inr (ty, text, msgs, b') \<Rightarrow>
          if length text < 1024 then
            Inr (s\<lparr>tok := Some \<lparr>type = ty, str = text\<rparr>,
                   buffer := b',
                   stderr := stderr s @ msgs\<rparr>)
          else Inl BufferOverrun)"

text \<open>
  A state of the kind in which \<open>main\<close> starts a conversion, after \<open>reset_buf\<close> and
  \<open>load_buf\<close> of a line: no token read yet, the line's bytes at the start of the block,
  the length that of the line, the cursor at 0. The block here is one byte longer than
  the line; its capacity and the bytes behind the line are never read by the tokenizer.
\<close>

definition loaded :: "string \<Rightarrow> globals" where
  "loaded line =
     \<lparr>tok = None,
      buffer = \<lparr>buf = line @ [CHR 0x00], cap = length line + 1, len = length line, idx = 0\<rparr>,
      stderr = []\<rparr>"

section \<open>Number parsing\<close>

text \<open>
  \<open>strtod\<close> belongs to the C library; it is modelled from its documentation (ISO C,
  7.22.1.3, in the "C" locale). It skips white space, then takes the longest initial
  part of the text that is an optional sign followed by a decimal number (digits with
  at most one decimal point and at least one digit, then optionally \<open>e\<close> or \<open>E\<close>, an
  optional sign and digits), by a hexadecimal number (\<open>0x\<close> or \<open>0X\<close>, hexadecimal digits
  with at most one decimal point and at least one digit, then optionally \<open>p\<close> or \<open>P\<close>,
  an optional sign and decimal digits), by \<open>inf\<close> or \<open>infinity\<close>, or by \<open>nan\<close> with an
  optional parenthesised run of letters, digits and underscores, the last two in any
  case of letters. It returns the value of that part and the unread rest of the text
  (the source's \<open>tmp\<close>); when no part has such a form the value is zero and the rest is
  the whole text.

  The value of a \<open>double\<close> is the real number a text denotes, an infinity or not a
  number. Rounding to the nearest representable number, and overflow, are left out: no
  statement below depends on them.
\<close>

datatype double = Finite real | PosInf | NegInf | NaN

definition isspace :: "char \<Rightarrow> bool" where
  "isspace c = (c \<in> {CHR '' '', CHR 0x09, CHR 0x0A, CHR 0x0B, CHR 0x0C, CHR 0x0D})"

definition isxdigit :: "char \<Rightarrow> bool" where
  "isxdigit c = (isdigit (char_to_int c)
                 \<or> char_to_int CHR ''a'' \<le> char_to_int c \<and> char_to_int c \<le> char_to_int CHR ''f''
                 \<or> char_to_int CHR ''A'' \<le> char_to_int c \<and> char_to_int c \<le> char_to_int CHR ''F'')"

definition tolower :: "char \<Rightarrow> char" where
  "tolower c = (if char_to_int CHR ''A'' \<le> char_to_int c \<and> char_to_int c \<le> char_to_int CHR ''Z''
                then char_of (char_to_int c + 32) else c)"

definition digit_value :: "char \<Rightarrow> nat" where
  "digit_value c =
     (if isdigit (char_to_int c) then nat (char_to_int c - char_to_int CHR ''0'')
      else nat (char_to_int (tolower c) - char_to_int CHR ''a'') + 10)"

definition digits_value :: "nat \<Rightarrow> string \<Rightarrow> nat" where
  "digits_value base ds = foldl (\<lambda>n c. base * n + digit_value c) 0 ds"

text \<open>
  The digits of a number in the given base, with at most one decimal point among them:
  the digits before the point, those after it and the rest of the text, or nothing
  when there is no digit.
\<close>

definition mantissa :: "(char \<Rightarrow> bool) \<Rightarrow> string \<Rightarrow> (string \<times> string \<times> string) option" where
  "mantissa dig s =
     (let ip = takeWhile dig s; r = dropWhile dig s in
      case r of
        [] \<Rightarrow> if ip = [] then None else Some (ip, [], [])
      | c # r' \<Rightarrow>
          if c = CHR ''.'' then
            (let fp = takeWhile dig r' in
             if ip = [] \<and> fp = [] then None else Some (ip, fp, dropWhile dig r'))
          else if ip = [] then None else Some (ip, [], r))"

definition sign :: "string \<Rightarrow> bool \<times> string" where
  "sign s =
     (case s of
        [] \<Rightarrow> (False, s)
      | c # r \<Rightarrow> if c = CHR ''-'' then (True, r) else if c = CHR ''+'' then (False, r)
                 else (False, s))"

text \<open>
  The exponent part behind one of the two given letters: the exponent and the rest of
  the text. Without digits there is no exponent part and nothing is read.
\<close>

definition exponent :: "char \<Rightarrow> char \<Rightarrow> string \<Rightarrow> int \<times> string" where
  "exponent lo up s =
     (case s of
        [] \<Rightarrow> (0, s)
      | c # r \<Rightarrow>
          if c = lo \<or> c = up then
            (let (neg, r1) = sign r; ds = takeWhile (\<lambda>c. isdigit (char_to_int c)) r1 in
             if ds = [] then (0, s)
             else ((if neg then - int (digits_value 10 ds) else int (digits_value 10 ds)),
                   dropWhile (\<lambda>c. isdigit (char_to_int c)) r1))
          else (0, s))"

definition scale :: "nat \<Rightarrow> int \<Rightarrow> real \<Rightarrow> real" where
  "scale base e x = (if 0 \<le> e then x * real base ^ nat e else x / real base ^ nat (- e))"

definition mantissa_value :: "nat \<Rightarrow> string \<Rightarrow> string \<Rightarrow> real" where
  "mantissa_value base ip fp =
     real (digits_value base ip) + real (digits_value base fp) / real base ^ length fp"

fun hex_prefix :: "string \<Rightarrow> string option" where
  "hex_prefix (c0 # c1 # r) =
     (if c0 = CHR ''0'' \<and> (c1 = CHR ''x'' \<or> c1 = CHR ''X'') then Some r else None)"
| "hex_prefix _ = None"

definition word_prefix :: "string \<Rightarrow> string \<Rightarrow> bool" where
  "word_prefix w s = (length w \<le> length s \<and> map tolower (take (length w) s) = w)"

definition decimal_number :: "string \<Rightarrow> (double \<times> string) option" where
  "decimal_number s =
     (case mantissa (\<lambda>c. isdigit (char_to_int c)) s of
        None \<Rightarrow> None
      | Some (ip, fp, r) \<Rightarrow>
          (let (e, r') = exponent CHR ''e'' CHR ''E'' r in
           Some (Finite (scale 10 e (mantissa_value 10 ip fp)), r')))"

definition hex_number :: "string \<Rightarrow> (double \<times> string) option" where
  "hex_number s =
     (case hex_prefix s of
        None \<Rightarrow> None
      | Some h \<Rightarrow>
          (case mantissa isxdigit h of
             None \<Rightarrow> None
           | Some (ip, fp, r) \<Rightarrow>
               (let (e, r') = exponent CHR ''p'' CHR ''P'' r in
                Some (Finite (scale 2 e (mantissa_value 16 ip fp)), r'))))"

definition special_number :: "string \<Rightarrow> (double \<times> string) option" where
  "special_number s =
     (if word_prefix ''infinity'' s then Some (PosInf, drop 8 s)
      else if word_prefix ''inf'' s then Some (PosInf, drop 3 s)
      else if word_prefix ''nan'' s then
        (let r = drop 3 s;
             nchar = (\<lambda>c. isalpha (char_to_int c) \<or> isdigit (char_to_int c) \<or> c = CHR ''_'')
         in case r of
              [] \<Rightarrow> Some (NaN, r)
            | c # r' \<Rightarrow>
                if c = CHR ''('' then
                  (case dropWhile nchar r' of
                     [] \<Rightarrow> Some (NaN, r)
                   | d # r'' \<Rightarrow> if d = CHR '')'' then Some (NaN, r'') else Some (NaN, r))
                else Some (NaN, r))
      else None)"

definition negate :: "double \<Rightarrow> double" where
  "negate v = (case v of Finite x \<Rightarrow> Finite (- x) | PosInf \<Rightarrow> NegInf | NegInf \<Rightarrow> PosInf | NaN \<Rightarrow> NaN)"

definition strtod :: "string \<Rightarrow> double \<times> string" where
  "strtod nptr =
     (let (neg, s) = sign (dropWhile isspace nptr);
          subject =
            (case hex_number s of
               Some n \<Rightarrow> Some n
             | None \<Rightarrow>
                 (case decimal_number s of
                    Some n \<Rightarrow> Some n
                  | None \<Rightarrow> special_number s))
      in case subject of
           None \<Rightarrow> (Finite 0, nptr)
         | Some (v, endptr) \<Rightarrow> (if neg then negate v else v, endptr))"

definition str_to_num :: "string \<Rightarrow> globals \<Rightarrow> double \<times> globals" where
  "str_to_num text s =
     (let (num, tmp) = strtod text in
      if tmp \<noteq> [] then (Finite 0, s\<lparr>stderr := stderr s @ [InvalidFloat text]\<rparr>)
      else (num, s))"

section \<open>Conversion and solving\<close>

text \<open>
  \<open>convert\<close> in the source is unfinished: its \<open>switch\<close> has neither a controlling
  expression nor a body, \<open>create_value\<close> is called without arguments, and there is no
  \<open>return\<close>. What it does have is the loop that reads tokens until \<open>T_END_BUF\<close> and
  creates and appends one value per token read. The model keeps that loop and records,
  for every value created, the token that was current. Printing the token under
  \<open>verbo_flag\<close> is left out.
\<close>

partial_function (option) convert_loop ::
  "globals \<Rightarrow> Token option list \<Rightarrow> (error + Token option list \<times> globals) option" where
  "convert_loop s created =
     (case consume_token s of
        Inl e \<Rightarrow> Some (Inl e)
      | Inr s' \<Rightarrow>
          if map_option type (tok s') = Some T_END_BUF then Some (Inr (created, s'))
          else convert_loop s' (created @ [tok s']))"

definition convert :: "globals \<Rightarrow> (error + Token option list \<times> globals) option" where
  "convert s = convert_loop s []"

text \<open>
  \<open>solve\<close> has an empty body: it reads nothing, writes nothing and returns no value.
\<close>

definition solve :: "ptr \<Rightarrow> heap \<times> globals \<Rightarrow> heap \<times> globals" where
  "solve expr s = s"

section \<open>Notions used in the statements\<close>

text \<open>
  Two buffers agree when they have the same length, the same cursor and the same bytes
  below the length; capacity and whatever lies in the block behind the loaded bytes
  may differ.
\<close>

definition agree :: "InputBuffer \<Rightarrow> InputBuffer \<Rightarrow> bool" where
  "agree b1 b2 = (len b1 = len b2 \<and> idx b1 = idx b2 \<and> (\<forall>i<len b1. buf b1 ! i = buf b2 ! i))"

text \<open>
  The maximal run of digits and decimal points among the loaded bytes from the cursor
  on, written in the words of the specification rather than as the loop of
  \<open>read_number\<close>.
\<close>

definition number_run :: "InputBuffer \<Rightarrow> string" where
  "number_run b =
     takeWhile (\<lambda>c. isdigit (char_to_int c) \<or> c = CHR ''.'')
       (map (\<lambda>i. buf b ! i) [idx b..<len b])"

declare consume_token_loop.simps [simp del]
declare read_symbol_loop.simps [simp del]
declare read_number_loop.simps [simp del]

text \<open>
  A heap to run the repository functions on: repository 0 holds the values 1 and 2
  (1 at the head), repository 3 is as \<open>create_repo\<close> leaves it.
\<close>

definition sample_heap :: heap where
  "sample_heap =
     \<lparr>value_at = (\<lambda>a. \<lparr>vtype = V_NUM, ttype = T_NUM, val = of_nat a, name = ''n'',
                          next = (if a = 1 then Some 2 else None)\<rparr>),
      repo_at = (\<lambda>r. if r = 0 then \<lparr>head = Some 1, tail = Some 2, crnt = None\<rparr>
                      else \<lparr>head = None, tail = None, crnt = None\<rparr>)\<rparr>"

section \<open>Properties of the value repository\<close>

text \<open>
  C9. \<open>pop\<close>, \<open>peek\<close> and \<open>get\<close> return NULL on a NULL repository pointer and on a
  repository whose head (for \<open>get\<close>: whose current pointer) is NULL; they do not fail,
  and \<open>pop\<close> (like \<open>get\<close>) then leaves the heap, hence the repository, as it was.
\<close>

theorem repo_empty_reads_null:
  assumes "p = None \<or> (\<exists>r. p = Some r \<and> head (repo_at h r) = None)"
    and "q = None \<or> (\<exists>r. q = Some r \<and> crnt (repo_at h r) = None)"
  shows "pop p h = (None, h) \<and> peek p h = None \<and> get q h = (None, h)"
  using assms by (auto simp: pop_def peek_def get_def)

theorem repo_empty_reads_null_witness:
  "(Some 3 = None \<or> (\<exists>r. Some 3 = Some r \<and> head (repo_at sample_heap r) = None))
   \<and> (Some 0 = None \<or> (\<exists>r. Some 0 = Some r \<and> crnt (repo_at sample_heap r) = None))
   \<and> pop (Some 3) sample_heap = (None, sample_heap)
   \<and> peek (Some 3) sample_heap = None
   \<and> get (Some 0) sample_heap = (None, sample_heap)"
proof -
  have p: "Some 3 = None \<or> (\<exists>r. Some 3 = Some r \<and> head (repo_at sample_heap r) = None)"
    by (simp add: sample_heap_def)
  have q: "Some 0 = None \<or> (\<exists>r. Some 0 = Some r \<and> crnt (repo_at sample_heap r) = None)"
    by (simp add: sample_heap_def)
  from repo_empty_reads_null [OF p q] p q show ?thesis by blast
qed

text \<open>
  C10. On a non-NULL repository, \<open>push\<close> of a non-NULL value followed at once by \<open>pop\<close>
  returns the pushed value, and the repository's head is again what it was before the
  push.
\<close>

theorem push_pop_round_trip:
  assumes "p \<noteq> None" and "v \<noteq> None"
  shows "\<exists>h1 h2. push p v h = Inr h1 \<and> pop p h1 = (v, h2)
           \<and> head (repo_at h2 (the p)) = head (repo_at h (the p))"
  using assms by (auto simp: push_def pop_def Let_def)

theorem push_pop_round_trip_witness:
  "Some (0::nat) \<noteq> None \<and> Some (5::nat) \<noteq> None
   \<and> (\<exists>h1 h2. push (Some 0) (Some 5) sample_heap = Inr h1 \<and> pop (Some 0) h1 = (Some 5, h2)
          \<and> head (repo_at h2 0) = Some 1)"
proof -
  have p: "Some (0::nat) \<noteq> None" and v: "Some (5::nat) \<noteq> None" by simp_all
  have "head (repo_at sample_heap (the (Some 0))) = Some 1"
    by (simp add: sample_heap_def)
  with push_pop_round_trip [OF p v, of sample_heap] show ?thesis by simp
qed

section \<open>Properties of the precedence function\<close>

text \<open>
  C2. \<open>precedence\<close> gives every operator the level of the operator table: \<open>or\<close> 1,
  \<open>and\<close> 2, \<open>==\<close> and \<open>!=\<close> 3, the four order comparisons 4, \<open>+\<close> and \<open>-\<close> 5, \<open>*\<close>,
  \<open>/\<close> and \<open>%\<close> 6, \<open>not\<close> 7, \<open>^\<close> 8 and assignment 0, which no operator token goes
  below. The source has one token for the unary operators: \<open>T_NOT\<close>, whose level its
  comment gives to unary minus as well.
\<close>

theorem precedence_table:
  "precedence T_OR = 1 \<and> precedence T_AND = 2
   \<and> precedence T_EQU = 3 \<and> precedence T_NEQU = 3
   \<and> precedence T_LT = 4 \<and> precedence T_GT = 4 \<and> precedence T_LTE = 4 \<and> precedence T_GTE = 4
   \<and> precedence T_PLUS = 5 \<and> precedence T_MINUS = 5
   \<and> precedence T_STAR = 6 \<and> precedence T_SLASH = 6 \<and> precedence T_PERC = 6
   \<and> precedence T_NOT = 7
   \<and> precedence T_CARAT = 8
   \<and> precedence T_EQUAL = 0
   \<and> (\<forall>op. is_operator op \<longrightarrow> precedence T_EQUAL \<le> precedence op)"
proof -
  have "precedence T_EQUAL \<le> precedence op" if "is_operator op" for op
    using that by (cases op) (simp_all add: precedence_def is_operator_def)
  then show ?thesis by (simp add: precedence_def)
qed

theorem precedence_table_witness:
  "is_operator T_OR \<and> precedence T_EQUAL \<le> precedence T_OR \<and> precedence T_OR = 1"
  using precedence_table by (simp add: is_operator_def)

section \<open>Characters\<close>

lemma char_of_char_to_int: "char_of (char_to_int c) = c"
  by (simp add: char_to_int_def) (metis char_of_char char_of_quasi_inj minus_mod_self2)

lemma char_to_int_eq_iff: "char_to_int c = char_to_int d \<longleftrightarrow> c = d"
  by (metis char_of_char_to_int)

lemma end_mark_neq: "- 1 \<noteq> char_to_int CHR ''=''"
  by (simp add: char_to_int_def)

section \<open>Properties of the tokenizer\<close>

subsection \<open>One round of the loop on an operator or an unhandled character\<close>

lemma lookahead_loop:
  assumes "idx b < len b" and "buf b ! idx b = c"
    and "(c, t2, t1) \<in> {(CHR ''<'', T_LTE, T_LT), (CHR ''>'', T_GTE, T_GT),
                         (CHR ''='', T_EQU, T_EQUAL), (CHR ''!'', T_NEQU, T_NOT)}"
  shows "consume_token_loop b =
           (if idx b + 1 < len b \<and> buf b ! (idx b + 1) = CHR ''=''
            then Inr (t2, [c, CHR ''=''], [], b\<lparr>idx := idx b + 2\<rparr>)
            else Inr (t1, [c], [], b\<lparr>idx := idx b + 1\<rparr>))"
  using assms
  by (subst consume_token_loop.simps)
     (auto simp add: read_char_def consume_char_def Let_def char_to_int_eq_iff
        char_of_char_to_int end_mark_neq)

lemma unhandled_loop:
  assumes "idx b < len b" and "buf b ! idx b = c"
    and "c \<notin> set '' +-*/%^()<>=!_''" and "c \<noteq> CHR 0x09" and "char_to_int c \<noteq> - 1"
    and "\<not> isalpha (char_to_int c)" and "\<not> isdigit (char_to_int c)"
  shows "consume_token_loop b
         = Inr (T_ERROR, [], [UnhandledChar (char_to_int c)], b\<lparr>idx := idx b + 1\<rparr>)"
  using assms
  by (subst consume_token_loop.simps)
     (simp add: read_char_def consume_char_def Let_def char_to_int_eq_iff)

lemma digit_round:
  assumes "isdigit (read_char b)"
  shows "consume_token_loop b
         = (case read_number b of Inl e \<Rightarrow> Inl e | Inr (t, b') \<Rightarrow> Inr (T_NUM, t, [], b'))"
  using assms
  by (subst consume_token_loop.simps)
     (auto simp add: Let_def isdigit_def isalpha_def char_to_int_def)

subsection \<open>The result depends on the loaded bytes and the cursor only\<close>

lemma agree_read_char: "agree b1 b2 \<Longrightarrow> read_char b1 = read_char b2"
  by (simp add: agree_def read_char_def)

lemma agree_consume_char: "agree b1 b2 \<Longrightarrow> agree (snd (consume_char b1)) (snd (consume_char b2))"
  by (simp add: agree_def consume_char_def)

lemma agree_read_number_loop:
  "agree b1 b2 \<Longrightarrow>
   rel_sum (=) (rel_prod (=) agree) (read_number_loop b1 t) (read_number_loop b2 t)"
proof (induction b1 t arbitrary: b2 rule: read_number_loop.induct)
  case (1 b t)
  note rc = agree_read_char [OF "1.prems"]
  note ag = agree_consume_char [OF "1.prems"]
  show ?case
    unfolding read_number_loop.simps [of b t] read_number_loop.simps [of b2 t]
    using "1.IH" "1.prems" ag agree_read_char [OF ag]
    by (auto simp: Let_def rc [symmetric])
qed

lemma agree_read_symbol_loop:
  "agree b1 b2 \<Longrightarrow>
   rel_sum (=) (rel_prod (=) agree) (read_symbol_loop b1 t) (read_symbol_loop b2 t)"
proof (induction b1 t arbitrary: b2 rule: read_symbol_loop.induct)
  case (1 b t)
  note rc = agree_read_char [OF "1.prems"]
  note ag = agree_consume_char [OF "1.prems"]
  show ?case
    unfolding read_symbol_loop.simps [of b t] read_symbol_loop.simps [of b2 t]
    using "1.IH" "1.prems" ag agree_read_char [OF ag]
    by (auto simp: Let_def rc [symmetric])
qed

lemma rel_ifI:
  "(c \<Longrightarrow> rel_sum A B x y) \<Longrightarrow> (\<not> c \<Longrightarrow> rel_sum A B x' y')
   \<Longrightarrow> rel_sum A B (if c then x else x') (if c then y else y')"
  by simp

lemma agree_consume_token_loop:
  "agree b1 b2 \<Longrightarrow>
   rel_sum (=) (rel_prod (=) (rel_prod (=) (rel_prod (=) agree)))
     (consume_token_loop b1) (consume_token_loop b2)"
proof (induction b1 arbitrary: b2 rule: consume_token_loop.induct)
  case (1 b)
  note rc = agree_read_char [OF "1.prems"]
  note ag = agree_consume_char [OF "1.prems"]
  note rc1 = agree_read_char [OF ag]
  note ag1 = agree_consume_char [OF ag]
  have sym: "rel_sum (=) (rel_prod (=) agree) (read_symbol b) (read_symbol b2)"
    unfolding read_symbol_def by (rule agree_read_symbol_loop [OF "1.prems"])
  have num: "rel_sum (=) (rel_prod (=) agree) (read_number b) (read_number b2)"
    unfolding read_number_def by (rule agree_read_number_loop [OF "1.prems"])
  have sym': "rel_sum (=) (rel_prod (=) (rel_prod (=) (rel_prod (=) agree)))
       (case read_symbol b of Inl e \<Rightarrow> Inl e | Inr (t, b') \<Rightarrow> Inr (T_SYM, t, [], b'))
       (case read_symbol b2 of Inl e \<Rightarrow> Inl e | Inr (t, b') \<Rightarrow> Inr (T_SYM, t, [], b'))"
    using sym by (auto elim!: rel_sum.cases)
  have num': "rel_sum (=) (rel_prod (=) (rel_prod (=) (rel_prod (=) agree)))
       (case read_number b of Inl e \<Rightarrow> Inl e | Inr (t, b') \<Rightarrow> Inr (T_NUM, t, [], b'))
       (case read_number b2 of Inl e \<Rightarrow> Inl e | Inr (t, b') \<Rightarrow> Inr (T_NUM, t, [], b'))"
    using num by (auto elim!: rel_sum.cases)
  show ?case
    unfolding consume_token_loop.simps [of b] consume_token_loop.simps [of b2]
      Let_def rc [symmetric] rc1 [symmetric]
    by (intro rel_ifI) (simp_all add: "1.IH" [OF _ _ ag] "1.prems" ag ag1 sym' num')
qed

lemma same_contents_agree:
  assumes "len b1 = len b2" and "idx b1 = idx b2"
    and "take (len b1) (buf b1) = take (len b2) (buf b2)"
  shows "agree b1 b2"
proof -
  have "buf b1 ! i = buf b2 ! i" if "i < len b1" for i
  proof -
    have "take (len b1) (buf b1) ! i = take (len b1) (buf b2) ! i"
      using assms by simp
    then show ?thesis using that by simp
  qed
  with assms show ?thesis by (simp add: agree_def)
qed

subsection \<open>The run of a number\<close>

lemma number_run_end: "len b \<le> idx b \<Longrightarrow> number_run b = []"
  by (simp add: number_run_def)

lemma number_run_step:
  assumes "idx b < len b"
  shows "number_run b =
    (if isdigit (char_to_int (buf b ! idx b)) \<or> buf b ! idx b = CHR ''.''
     then buf b ! idx b # number_run (b\<lparr>idx := idx b + 1\<rparr>) else [])"
proof -
  have "[idx b..<len b] = idx b # [idx b + 1..<len b]"
    using assms by (simp add: upt_conv_Cons)
  then show ?thesis by (simp add: number_run_def)
qed

lemma number_run_negative:
  assumes "read_char b < 0"
  shows "number_run b = []"
proof (cases "idx b < len b")
  case False
  then show ?thesis by (simp add: number_run_end)
next
  case True
  with assms(1) have neg: "char_to_int (buf b ! idx b) < 0"
    by (simp add: read_char_def)
  then have "\<not> isdigit (char_to_int (buf b ! idx b))"
    by (simp add: isdigit_def char_to_int_def [of "CHR ''0''"])
  moreover from neg have "buf b ! idx b \<noteq> CHR ''.''"
    by (auto simp: char_to_int_def)
  ultimately show ?thesis
    by (simp add: number_run_step [OF True])
qed

lemma read_number_loop_run:
  "length t + length (number_run b) < 1024 \<Longrightarrow>
   read_number_loop b t = Inr (t @ number_run b, b\<lparr>idx := idx b + length (number_run b)\<rparr>)"
proof (induction b t rule: read_number_loop.induct)
  case (1 b t)
  show ?case
  proof (cases "idx b < len b")
    case False
    then show ?thesis
      by (subst read_number_loop.simps) (simp add: number_run_end read_char_def isdigit_def char_to_int_def)
  next
    case True
    let ?c = "buf b ! idx b"
    let ?b' = "b\<lparr>idx := idx b + 1\<rparr>"
    note step = number_run_step [OF True]
    have rc: "read_char b = char_to_int ?c" and cc: "snd (consume_char b) = ?b'"
      using True by (simp_all add: read_char_def consume_char_def)
    show ?thesis
    proof (cases "isdigit (char_to_int ?c) \<or> ?c = CHR ''.''")
      case False
      then show ?thesis
        by (subst read_number_loop.simps) (simp add: rc step char_to_int_eq_iff)
    next
      case numch: True
      then have run: "number_run b = ?c # number_run ?b'" by (simp add: step)
      have cond: "isdigit (read_char b) \<or> read_char b = char_to_int CHR ''.''"
        using numch by (simp add: rc char_to_int_eq_iff)
      have room: "\<not> 1024 \<le> length t" using "1.prems" by simp
      show ?thesis
      proof (cases "0 > read_char ?b'")
        case True
        then have "number_run ?b' = []" by (rule number_run_negative)
        with True cond room show ?thesis
          by (subst read_number_loop.simps) (simp add: cc run Let_def rc char_of_char_to_int)
      next
        case False
        have "read_number_loop ?b' (t @ [?c])
              = Inr ((t @ [?c]) @ number_run ?b', ?b'\<lparr>idx := idx ?b' + length (number_run ?b')\<rparr>)"
          using "1.IH" [OF refl cond room refl refl] False cc "1.prems" rc
          by (simp add: run char_of_char_to_int)
        with False cond room show ?thesis
          by (subst read_number_loop.simps) (simp add: cc run Let_def rc char_of_char_to_int)
      qed
    qed
  qed
qed


subsection \<open>The claims about the tokenizer\<close>

text \<open>
  C3. When the character at the cursor is one of \<open><\<close>, \<open>>\<close>, \<open>=\<close>, \<open>!\<close>, the tokenizer
  looks at the character after it. If that is \<open>=\<close>, the token is the two-character one
  (\<open>T_LTE\<close>, \<open>T_GTE\<close>, \<open>T_EQU\<close>, \<open>T_NEQU\<close>) and the cursor moves by two; otherwise
  (another character, or the end of the buffer) the token is the one-character one
  (\<open>T_LT\<close>, \<open>T_GT\<close>, \<open>T_EQUAL\<close>, \<open>T_NOT\<close>) and the cursor moves by one. Nothing else
  of the state changes.
\<close>

theorem lookahead_operators:
  assumes "idx (buffer s) < len (buffer s)"
    and "buf (buffer s) ! idx (buffer s) = c"
    and "(c, t2, t1) \<in> {(CHR ''<'', T_LTE, T_LT), (CHR ''>'', T_GTE, T_GT),
                         (CHR ''='', T_EQU, T_EQUAL), (CHR ''!'', T_NEQU, T_NOT)}"
  shows "consume_token s =
           (if idx (buffer s) + 1 < len (buffer s)
               \<and> buf (buffer s) ! (idx (buffer s) + 1) = CHR ''=''
            then Inr (s\<lparr>tok := Some \<lparr>type = t2, str = [c, CHR ''='']\<rparr>,
                        buffer := (buffer s)\<lparr>idx := idx (buffer s) + 2\<rparr>\<rparr>)
            else Inr (s\<lparr>tok := Some \<lparr>type = t1, str = [c]\<rparr>,
                        buffer := (buffer s)\<lparr>idx := idx (buffer s) + 1\<rparr>\<rparr>))"
  by (simp add: consume_token_def lookahead_loop [OF assms])

theorem lookahead_operators_witness:
  "consume_token (loaded ''<=3'')
     = Inr \<lparr>tok = Some \<lparr>type = T_LTE, str = ''<=''\<rparr>,
            buffer = \<lparr>buf = ''<=3'' @ [CHR 0x00], cap = 4, len = 3, idx = 2\<rparr>,
            stderr = []\<rparr>
   \<and> consume_token (loaded ''!x'')
     = Inr \<lparr>tok = Some \<lparr>type = T_NOT, str = ''!''\<rparr>,
            buffer = \<lparr>buf = ''!x'' @ [CHR 0x00], cap = 3, len = 2, idx = 1\<rparr>,
            stderr = []\<rparr>"
  using lookahead_operators [of "loaded ''<=3''" "CHR ''<''" T_LTE T_LT]
    lookahead_operators [of "loaded ''!x''" "CHR ''!''" T_NEQU T_NOT]
  by (simp add: loaded_def)

text \<open>
  C4, as the claim states it, fails: the run that \<open>read_number\<close> consumes may hold any
  number of decimal points. On \<open>1.2.3\<close> the token is the whole text, with two points.
\<close>

theorem number_token_counterexample:
  "consume_token (loaded ''1.2.3'')
     = Inr \<lparr>tok = Some \<lparr>type = T_NUM, str = ''1.2.3''\<rparr>,
            buffer = \<lparr>buf = ''1.2.3'' @ [CHR 0x00], cap = 6, len = 5, idx = 5\<rparr>,
            stderr = []\<rparr>
   \<and> count_list ''1.2.3'' CHR ''.'' = 2"
  by (simp add: consume_token_def loaded_def consume_token_loop.simps read_number_def
      read_number_loop.simps read_char_def consume_char_def char_to_int_def isdigit_def
      isalpha_def Let_def char_of_def)

text \<open>
  C4, amended. When the character at the cursor is a digit, the tokenizer consumes the
  maximal run of digits and decimal points (any number of points) that starts there
  and makes it the text of a \<open>T_NUM\<close> token, provided the run has fewer than 1024
  characters, the size of the text array. Nothing else of the state changes: the
  tokenizer does not parse the text.
\<close>

theorem number_token_run:
  assumes "idx (buffer s) < len (buffer s)"
    and "isdigit (char_to_int (buf (buffer s) ! idx (buffer s)))"
    and "length (number_run (buffer s)) < 1024"
  shows "consume_token s =
           Inr (s\<lparr>tok := Some \<lparr>type = T_NUM, str = number_run (buffer s)\<rparr>,
                  buffer := (buffer s)\<lparr>idx := idx (buffer s) + length (number_run (buffer s))\<rparr>\<rparr>)"
proof -
  have "isdigit (read_char (buffer s))"
    using assms(1,2) by (simp add: read_char_def)
  moreover have "read_number (buffer s)
      = Inr (number_run (buffer s),
             (buffer s)\<lparr>idx := idx (buffer s) + length (number_run (buffer s))\<rparr>)"
    using read_number_loop_run [of "[]" "buffer s"] assms(3) by (simp add: read_number_def)
  ultimately show ?thesis
    using assms(3) by (simp add: consume_token_def digit_round)
qed

theorem number_token_run_witness:
  "isdigit (char_to_int (buf (buffer (loaded ''12.5.1+3'')) ! idx (buffer (loaded ''12.5.1+3''))))
   \<and> number_run (buffer (loaded ''12.5.1+3'')) = ''12.5.1''
   \<and> consume_token (loaded ''12.5.1+3'')
     = Inr \<lparr>tok = Some \<lparr>type = T_NUM, str = ''12.5.1''\<rparr>,
            buffer = \<lparr>buf = ''12.5.1+3'' @ [CHR 0x00], cap = 9, len = 8, idx = 6\<rparr>,
            stderr = []\<rparr>"
  using number_token_run [of "loaded ''12.5.1+3''"]
  by (simp add: loaded_def number_run_def isdigit_def char_to_int_def upt_conv_Cons)

text \<open>
  C6, as the claim states it, fails: the error token carries no text. On \<open>#\<close> the token
  is \<open>T_ERROR\<close> with the empty text; the character shows only in the message written to
  the standard error stream.
\<close>

theorem unhandled_character_counterexample:
  "consume_token (loaded ''#'')
     = Inr \<lparr>tok = Some \<lparr>type = T_ERROR, str = []\<rparr>,
            buffer = \<lparr>buf = ''#'' @ [CHR 0x00], cap = 2, len = 1, idx = 1\<rparr>,
            stderr = [UnhandledChar 35]\<rparr>"
  by (simp add: consume_token_def loaded_def consume_token_loop.simps
      read_char_def consume_char_def char_to_int_def isdigit_def isalpha_def Let_def)

text \<open>
  C6, amended. For every character at the cursor that is not a space or a tab, not an
  operator character, not alphabetic, not an underscore and not a digit, and that does
  not read as the end mark \<open>-1\<close>, the tokenizer consumes the character, writes a message
  with the character to the standard error stream and makes the current token a
  \<open>T_ERROR\<close> token with the empty text. It returns normally, the cursor behind the
  character, so whether to go on is the caller's decision.
\<close>

theorem unhandled_character_token:
  assumes "idx (buffer s) < len (buffer s)"
    and "buf (buffer s) ! idx (buffer s) = c"
    and "c \<notin> set '' +-*/%^()<>=!_''" and "c \<noteq> CHR 0x09" and "char_to_int c \<noteq> - 1"
    and "\<not> isalpha (char_to_int c)" and "\<not> isdigit (char_to_int c)"
  shows "consume_token s =
           Inr (s\<lparr>tok := Some \<lparr>type = T_ERROR, str = []\<rparr>,
                  buffer := (buffer s)\<lparr>idx := idx (buffer s) + 1\<rparr>,
                  stderr := stderr s @ [UnhandledChar (char_to_int c)]\<rparr>)"
  by (simp add: consume_token_def unhandled_loop [OF assms])

theorem unhandled_character_token_witness:
  "CHR ''@'' \<notin> set '' +-*/%^()<>=!_'' \<and> char_to_int CHR ''@'' \<noteq> - 1
   \<and> \<not> isalpha (char_to_int CHR ''@'') \<and> \<not> isdigit (char_to_int CHR ''@'')
   \<and> consume_token (loaded ''@1'')
     = Inr \<lparr>tok = Some \<lparr>type = T_ERROR, str = []\<rparr>,
            buffer = \<lparr>buf = ''@1'' @ [CHR 0x00], cap = 3, len = 2, idx = 1\<rparr>,
            stderr = [UnhandledChar 64]\<rparr>"
  using unhandled_character_token [of "loaded ''@1''" "CHR ''@''"]
  by (simp add: loaded_def isalpha_def isdigit_def char_to_int_def)

text \<open>
  C8. Reading a token is a function of the loaded bytes and the cursor: from two states
  whose buffers have the same length, the same cursor and the same bytes below the
  length, whatever else differs (the previous token, the capacity, the bytes behind the
  loaded ones, the messages written so far), \<open>consume_token\<close> yields the same token,
  type and text, and the same cursor, or fails in the same way.
\<close>

theorem tokenizer_deterministic:
  assumes "len (buffer s1) = len (buffer s2)" and "idx (buffer s1) = idx (buffer s2)"
    and "take (len (buffer s1)) (buf (buffer s1)) = take (len (buffer s2)) (buf (buffer s2))"
  shows "map_sum id (\<lambda>s. (tok s, idx (buffer s))) (consume_token s1)
       = map_sum id (\<lambda>s. (tok s, idx (buffer s))) (consume_token s2)"
proof -
  have "rel_sum (=) (rel_prod (=) (rel_prod (=) (rel_prod (=) agree)))
          (consume_token_loop (buffer s1)) (consume_token_loop (buffer s2))"
    by (rule agree_consume_token_loop [OF same_contents_agree [OF assms]])
  then show ?thesis
    by (auto simp: consume_token_def agree_def elim!: rel_sum.cases)
qed

theorem tokenizer_deterministic_witness:
  "take 4 (buf (buffer (loaded ''12+x''))) = take 4 ''12+x)) zz''
   \<and> map_sum id (\<lambda>s. (tok s, idx (buffer s))) (consume_token (loaded ''12+x''))
     = map_sum id (\<lambda>s. (tok s, idx (buffer s)))
         (consume_token \<lparr>tok = Some \<lparr>type = T_SYM, str = ''old''\<rparr>,
            buffer = \<lparr>buf = ''12+x)) zz'', cap = 16, len = 4, idx = 0\<rparr>,
            stderr = [UnhandledChar 35]\<rparr>)
   \<and> map_sum id (\<lambda>s. (tok s, idx (buffer s))) (consume_token (loaded ''12+x''))
     = Inr (Some \<lparr>type = T_NUM, str = ''12''\<rparr>, 2)"
proof -
  have "consume_token (loaded ''12+x'')
     = Inr \<lparr>tok = Some \<lparr>type = T_NUM, str = ''12''\<rparr>,
            buffer = \<lparr>buf = ''12+x'' @ [CHR 0x00], cap = 5, len = 4, idx = 2\<rparr>,
            stderr = []\<rparr>"
    by (simp add: consume_token_def loaded_def consume_token_loop.simps read_number_def
      read_number_loop.simps read_char_def consume_char_def char_to_int_def isdigit_def
      isalpha_def Let_def char_of_def)
  with tokenizer_deterministic [of "loaded ''12+x''"
      "\<lparr>tok = Some \<lparr>type = T_SYM, str = ''old''\<rparr>,
        buffer = \<lparr>buf = ''12+x)) zz'', cap = 16, len = 4, idx = 0\<rparr>,
        stderr = [UnhandledChar 35]\<rparr>"]
  show ?thesis by (simp add: loaded_def)
qed

section \<open>Properties of number parsing\<close>

lemma digit_not_other:
  assumes "isdigit (char_to_int c)"
  shows "\<not> isspace c" and "c \<noteq> CHR ''-''" and "c \<noteq> CHR ''+''" and "c \<noteq> CHR ''.''"
    and "c \<noteq> CHR ''x''" and "c \<noteq> CHR ''X''"
  using assms by (auto simp: isdigit_def isspace_def char_to_int_def)

lemma while_prefix:
  assumes "\<forall>c\<in>set xs. P c" and "ys = [] \<or> \<not> P (hd ys)"
  shows "takeWhile P (xs @ ys) = xs" and "dropWhile P (xs @ ys) = ys"
  using assms by (cases ys; simp add: takeWhile_append2 dropWhile_append2)+

subsection \<open>What \<open>strtod\<close> leaves unread behind a number\<close>

lemma strtod_rest_integer:
  assumes "ip \<noteq> []" and "\<forall>c\<in>set ip. isdigit (char_to_int c)"
    and "t \<noteq> []" and "\<not> isdigit (char_to_int (hd t))" and "hd t \<notin> set ''.eExX''"
  shows "snd (strtod (ip @ t)) = t"
proof -
  obtain c ip' where ip: "ip = c # ip'" using assms(1) by (cases ip) auto
  obtain d t' where t: "t = d # t'" using assms(3) by (cases t) auto
  have c: "isdigit (char_to_int c)" using assms(2) ip by simp
  have d: "\<not> isdigit (char_to_int d)" "d \<noteq> CHR ''.''" "d \<noteq> CHR ''e''" "d \<noteq> CHR ''E''"
    "d \<noteq> CHR ''x''" "d \<noteq> CHR ''X''"
    using assms(4,5) t by auto
  have ws: "dropWhile isspace (ip @ t) = ip @ t"
    using digit_not_other(1) [OF c] by (simp add: ip)
  have sg: "sign (ip @ t) = (False, ip @ t)"
    using digit_not_other(2,3) [OF c] by (simp add: sign_def ip)
  have hex: "hex_number (ip @ t) = None"
  proof (cases ip')
    case Nil
    with d show ?thesis by (simp add: hex_number_def ip t)
  next
    case (Cons c1 ip'')
    then have "isdigit (char_to_int c1)" using assms(2) ip by simp
    from digit_not_other(5,6) [OF this] show ?thesis
      by (simp add: hex_number_def ip Cons)
  qed
  have tw: "takeWhile (\<lambda>c. isdigit (char_to_int c)) (ip @ t) = ip"
    and dw: "dropWhile (\<lambda>c. isdigit (char_to_int c)) (ip @ t) = t"
    using while_prefix [of ip "\<lambda>c. isdigit (char_to_int c)" t] assms(2,4) by simp_all
  have man: "mantissa (\<lambda>c. isdigit (char_to_int c)) (ip @ t) = Some (ip, [], t)"
    unfolding mantissa_def tw dw using d assms(1) by (simp add: t)
  have ex: "exponent CHR ''e'' CHR ''E'' t = (0, t)"
    using d by (simp add: exponent_def t)
  have "decimal_number (ip @ t) = Some (Finite (scale 10 0 (mantissa_value 10 ip [])), t)"
    by (simp add: decimal_number_def man ex)
  then show ?thesis
    by (simp add: strtod_def ws sg hex)
qed

lemma strtod_rest_point:
  assumes "ip \<noteq> []" and "\<forall>c\<in>set ip. isdigit (char_to_int c)"
    and "\<forall>c\<in>set fp. isdigit (char_to_int c)"
    and "t \<noteq> []" and "\<not> isdigit (char_to_int (hd t))" and "hd t \<notin> set ''eE''"
  shows "snd (strtod (ip @ CHR ''.'' # fp @ t)) = t"
proof -
  let ?s = "ip @ CHR ''.'' # fp @ t"
  obtain c ip' where ip: "ip = c # ip'" using assms(1) by (cases ip) auto
  obtain d t' where t: "t = d # t'" using assms(4) by (cases t) auto
  have c: "isdigit (char_to_int c)" using assms(2) ip by simp
  have d: "\<not> isdigit (char_to_int d)" "d \<noteq> CHR ''e''" "d \<noteq> CHR ''E''"
    using assms(5,6) t by auto
  have pt: "\<not> isdigit (char_to_int CHR ''.'')" by (simp add: isdigit_def char_to_int_def)
  have ws: "dropWhile isspace ?s = ?s"
    using digit_not_other(1) [OF c] by (simp add: ip)
  have sg: "sign ?s = (False, ?s)"
    using digit_not_other(2,3) [OF c] by (simp add: sign_def ip)
  have hex: "hex_number ?s = None"
  proof (cases ip')
    case Nil
    then show ?thesis by (simp add: hex_number_def ip)
  next
    case (Cons c1 ip'')
    then have "isdigit (char_to_int c1)" using assms(2) ip by simp
    from digit_not_other(5,6) [OF this] show ?thesis
      by (simp add: hex_number_def ip Cons)
  qed
  have tw: "takeWhile (\<lambda>c. isdigit (char_to_int c)) ?s = ip"
    and dw: "dropWhile (\<lambda>c. isdigit (char_to_int c)) ?s = CHR ''.'' # fp @ t"
    using while_prefix [of ip "\<lambda>c. isdigit (char_to_int c)" "CHR ''.'' # fp @ t"] assms(2) pt
    by simp_all
  have tw2: "takeWhile (\<lambda>c. isdigit (char_to_int c)) (fp @ t) = fp"
    and dw2: "dropWhile (\<lambda>c. isdigit (char_to_int c)) (fp @ t) = t"
    using while_prefix [of fp "\<lambda>c. isdigit (char_to_int c)" t] assms(3,5) by simp_all
  have man: "mantissa (\<lambda>c. isdigit (char_to_int c)) ?s = Some (ip, fp, t)"
    unfolding mantissa_def tw dw using assms(1) by (simp add: tw2 dw2)
  have ex: "exponent CHR ''e'' CHR ''E'' t = (0, t)"
    using d by (simp add: exponent_def t)
  have "decimal_number ?s = Some (Finite (scale 10 0 (mantissa_value 10 ip fp)), t)"
    by (simp add: decimal_number_def man ex)
  then show ?thesis
    by (simp add: strtod_def ws sg hex)
qed

lemma str_to_num_unread:
  assumes "snd (strtod text) \<noteq> []"
  shows "str_to_num text s = (Finite 0, s\<lparr>stderr := stderr s @ [InvalidFloat text]\<rparr>)"
  using assms by (cases "strtod text") (simp add: str_to_num_def)

subsection \<open>The claim about malformed numbers\<close>

text \<open>
  C5, as the claim states it, fails: on a numeric text with trailing characters
  \<open>str_to_num\<close> does produce the value zero. On \<open>12abc\<close> it returns 0 as its ordinary
  result, the value it also returns for the text \<open>0\<close>; the message about the text goes
  to the standard error stream, and neither the current token nor the buffer tells the
  caller of an error.
\<close>

theorem malformed_number_counterexample:
  "str_to_num ''12abc'' (loaded ''12abc'')
     = (Finite 0, \<lparr>tok = None,
            buffer = \<lparr>buf = ''12abc'' @ [CHR 0x00], cap = 6, len = 5, idx = 0\<rparr>,
            stderr = [InvalidFloat ''12abc'']\<rparr>)
   \<and> str_to_num ''0'' (loaded ''0'') = (Finite 0, loaded ''0'')"
  by (simp add: str_to_num_def strtod_def sign_def isspace_def hex_number_def
      decimal_number_def mantissa_def exponent_def scale_def mantissa_value_def
      digits_value_def digit_value_def isdigit_def char_to_int_def loaded_def Let_def)

text \<open>
  C5, amended. For every numeric text (decimal digits, with or without a decimal point
  and further digits) followed by trailing characters of which the first cannot
  continue the number (it is no digit, none of \<open>e\<close>, \<open>E\<close>, \<open>x\<close>, \<open>X\<close>, and no decimal
  point unless the number has one already), \<open>str_to_num\<close> writes the message naming the
  text to the standard error stream and returns the value 0. Nothing else of the state
  changes, and no error value is returned.
\<close>

theorem malformed_number_message_and_zero:
  assumes "ip \<noteq> []" and "\<forall>c\<in>set ip. isdigit (char_to_int c)"
    and "pt = [] \<or> (\<exists>fp. pt = CHR ''.'' # fp \<and> (\<forall>c\<in>set fp. isdigit (char_to_int c)))"
    and "t \<noteq> []" and "\<not> isdigit (char_to_int (hd t))" and "hd t \<notin> set ''eExX''"
    and "pt = [] \<longrightarrow> hd t \<noteq> CHR ''.''"
  shows "str_to_num (ip @ pt @ t) s
         = (Finite 0, s\<lparr>stderr := stderr s @ [InvalidFloat (ip @ pt @ t)]\<rparr>)"
proof -
  have "snd (strtod (ip @ pt @ t)) = t"
  proof (cases "pt = []")
    case True
    with assms(5-7) have "hd t \<notin> set ''.eExX''" by auto
    from strtod_rest_integer [OF assms(1,2,4,5) this] True show ?thesis by simp
  next
    case False
    with assms(3) obtain fp where fp: "pt = CHR ''.'' # fp" "\<forall>c\<in>set fp. isdigit (char_to_int c)"
      by auto
    from assms(6) have "hd t \<notin> set ''eE''" by auto
    from strtod_rest_point [OF assms(1,2) fp(2) assms(4,5) this] fp(1) show ?thesis by simp
  qed
  with assms(4) have "snd (strtod (ip @ pt @ t)) \<noteq> []" by simp
  then show ?thesis by (rule str_to_num_unread)
qed

theorem malformed_number_message_and_zero_witness:
  "isdigit (char_to_int CHR ''1'') \<and> isdigit (char_to_int CHR ''5'')
   \<and> \<not> isdigit (char_to_int (hd ''.3'')) \<and> hd ''.3'' \<notin> set ''eExX''
   \<and> str_to_num (''1'' @ ''.5'' @ ''.3'') (loaded ''1.5.3'')
     = (Finite 0, \<lparr>tok = None,
            buffer = \<lparr>buf = ''1.5.3'' @ [CHR 0x00], cap = 6, len = 5, idx = 0\<rparr>,
            stderr = [InvalidFloat ''1.5.3'']\<rparr>)"
  using malformed_number_message_and_zero [of "''1''" "''.5''" "''.3''" "loaded ''1.5.3''"]
  by (simp add: isdigit_def char_to_int_def loaded_def)

section \<open>Conversion and solving as the source has them\<close>

text \<open>
  C1 does not hold of the source. \<open>convert\<close> has no operator stack: on \<open>3 + 4 * 2\<close> it
  creates its values in the order of the input, one per token, \<open>3\<close>, \<open>+\<close>, \<open>4\<close>, \<open>*\<close>,
  \<open>2\<close>, where the postfix order is \<open>3 4 2 * +\<close>.
\<close>

theorem convert_keeps_input_order:
  "map_option (map_sum id fst) (convert (loaded ''3 + 4 * 2''))
     = Some (Inr [Some \<lparr>type = T_NUM, str = ''3''\<rparr>, Some \<lparr>type = T_PLUS, str = ''+''\<rparr>,
                  Some \<lparr>type = T_NUM, str = ''4''\<rparr>, Some \<lparr>type = T_STAR, str = ''*''\<rparr>,
                  Some \<lparr>type = T_NUM, str = ''2''\<rparr>])"
  by (simp add: convert_def convert_loop.simps consume_token_def loaded_def
      consume_token_loop.simps read_number_def read_number_loop.simps read_char_def
      consume_char_def char_to_int_def isdigit_def isalpha_def Let_def char_of_def)

text \<open>
  C7 does not hold of the source either. \<open>solve\<close> evaluates nothing, so on no
  expression, a division by zero included, does it report an error: the heap, the
  current token, the buffer and the standard error stream are after the call what they
  were before.
\<close>

theorem solve_reports_nothing:
  "solve expr (h, s) = (h, s) \<and> stderr (snd (solve expr (h, s))) = stderr s"
  by (simp add: solve_def)

end
